theory Spec2Isabelle
  imports Complex_Main "HOL-Library.Word"
begin

section \<open>The trajectory reader of \<^verbatim>\<open>visualizer.py\<close>\<close>

text \<open>
  The file system is a map from paths to the contents of regular files; a path outside
  its domain does not exist. A file's content is a list of bytes, and an open file is
  that content with a read position.

  What the interpreter prints is kept as a list of messages, one constructor for each
  \<^verbatim>\<open>print\<close> of the source, and an uncaught exception is a value of \<open>error\<close>:
  \<^item> \<open>SystemExit c\<close> is \<^verbatim>\<open>sys.exit(c)\<close>;
  \<^item> \<open>StructError\<close> is \<^verbatim>\<open>struct.error\<close>, which \<^verbatim>\<open>struct.unpack\<close> raises on a buffer
    whose length is not the format's size;
  \<^item> \<open>ValueError\<close> is raised by a buffered binary file's \<^verbatim>\<open>read(n)\<close> for \<open>n < -1\<close>, by
    \<^verbatim>\<open>np.frombuffer\<close> on a buffer that is not a whole number of items, and by
    \<^verbatim>\<open>reshape\<close> on a shape that does not fit;
  \<^item> \<open>OverflowError\<close> and \<open>MemoryError\<close> are raised by \<^verbatim>\<open>read(n)\<close> for a size that is out
    of range or too large to allocate.
\<close>

type_synonym byte = "8 word"

datatype error = SystemExit int | StructError | ValueError | OverflowError | MemoryError

datatype message =
    FileNotFound string             \<comment> \<open>\<^verbatim>\<open>Error: File {filename} not found.\<close>\<close>
  | MagicMismatch                   \<comment> \<open>\<^verbatim>\<open>Error: Invalid file format (Magic header mismatch).\<close>\<close>
  | Loading string int int int      \<comment> \<open>\<^verbatim>\<open>Loading {filename}: {width}x{height}, {frame_count} frames\<close>\<close>
  | IncompleteFrame int             \<comment> \<open>\<^verbatim>\<open>Warning: Incomplete frame {i}\<close>\<close>

text \<open>The magic tag \<^verbatim>\<open>b"SCHR"\<close>: the bytes 0x53, 0x43, 0x48, 0x52.\<close>

definition SCHR :: "byte list" where
  "SCHR = [0x53, 0x43, 0x48, 0x52]"

subsection \<open>Reading from a binary file\<close>

text \<open>
  \<^verbatim>\<open>f.read(n)\<close> on a file opened with mode \<^verbatim>\<open>"rb"\<close> (an \<^verbatim>\<open>io.BufferedReader\<close> of a 64-bit
  CPython), in the order of its checks:
  \<^item> a size that does not fit a signed 64-bit integer raises \<^verbatim>\<open>OverflowError\<close>, and so does
    a size above \<open>2 ^ 63 - 34\<close>, for which no \<^verbatim>\<open>bytes\<close> object can exist;
  \<^item> another size below \<open>-1\<close> raises \<^verbatim>\<open>ValueError\<close>;
  \<^item> \<open>-1\<close> reads up to the end of the file;
  \<^item> for any other size the result, a \<^verbatim>\<open>bytes\<close> object of that size, is allocated before
    anything is read, whatever the file still holds: \<^verbatim>\<open>MemoryError\<close> when the allocator
    does not grant it;
  \<^item> otherwise that many bytes are returned or, at the end of the file, the fewer that
    remain.

  What the allocator grants is not in the source: it is the parameter \<open>mem\<close>, the number
  of bytes it can grant beyond \<^verbatim>\<open>io.DEFAULT_BUFFER_SIZE\<close>. A read of at most the buffer size
  is taken to be granted always. The result of a read is the bytes read and the new
  position.
\<close>

definition DEFAULT_BUFFER_SIZE :: nat where
  "DEFAULT_BUFFER_SIZE = 8192"

definition f_read :: "nat \<Rightarrow> byte list \<Rightarrow> nat \<Rightarrow> int \<Rightarrow> error + (byte list \<times> nat)" where
  "f_read mem content pos n =
     (if n < - (2 ^ 63) \<or> 2 ^ 63 - 34 < n then Inl OverflowError
      else if n < -1 then Inl ValueError
      else if n = -1 then Inr (drop pos content, max pos (length content))
      else if int (DEFAULT_BUFFER_SIZE + mem) < n then Inl MemoryError
      else Inr (take (nat n) (drop pos content),
                pos + length (take (nat n) (drop pos content))))"

text \<open>The sizes that such a read is granted.\<close>

definition readable :: "nat \<Rightarrow> int \<Rightarrow> bool" where
  "readable mem n \<longleftrightarrow> n \<le> 2 ^ 63 - 34 \<and> n \<le> int (DEFAULT_BUFFER_SIZE + mem)"

subsection \<open>Decoding integers and samples\<close>

text \<open>
  The value of a byte string read as a little-endian unsigned number. The format
  \<^verbatim>\<open>"iii"\<close> of \<^verbatim>\<open>struct.unpack\<close> is three native \<^verbatim>\<open>int\<close>s (4 bytes each, two's
  complement, no padding between them); native byte order is taken to be little-endian.
\<close>

fun le_nat :: "byte list \<Rightarrow> nat" where
  "le_nat [] = 0"
| "le_nat (b # bs) = unat b + 256 * le_nat bs"

definition int32_le :: "byte list \<Rightarrow> int" where
  "int32_le bs = sint (word_of_nat (le_nat bs) :: 32 word)"

definition struct_unpack_iii :: "byte list \<Rightarrow> error + (int \<times> int \<times> int)" where
  "struct_unpack_iii buf =
     (if length buf \<noteq> 12 then Inl StructError
      else Inr (int32_le (take 4 buf), int32_le (take 4 (drop 4 buf)),
                int32_le (take 4 (drop 8 buf))))"

text \<open>
  A \<^verbatim>\<open>complex128\<close> item is 16 bytes: the IEEE-754 double of the real part, then that of
  the imaginary part. \<^verbatim>\<open>np.frombuffer\<close> does not convert anything, so an item is kept
  as the two 64-bit patterns it is made of.
\<close>

type_synonym complex128 = "64 word \<times> 64 word"

definition float64_le :: "byte list \<Rightarrow> 64 word" where
  "float64_le bs = word_of_nat (le_nat bs)"

definition complex128_at :: "byte list \<Rightarrow> nat \<Rightarrow> complex128" where
  "complex128_at buf k =
     (float64_le (take 8 (drop (16 * k) buf)), float64_le (take 8 (drop (16 * k + 8) buf)))"

definition np_frombuffer :: "byte list \<Rightarrow> error + complex128 list" where
  "np_frombuffer buf =
     (if length buf mod 16 \<noteq> 0 then Inl ValueError
      else Inr (map (complex128_at buf) [0..<length buf div 16]))"

subsection \<open>Arrays and \<^verbatim>\<open>reshape\<close>\<close>

text \<open>A two-dimensional array: its shape (rows, columns) and its items in row-major order.\<close>

record 'a ndarray =
  shape :: "nat \<times> nat"
  items :: "'a list"

text \<open>
  \<^verbatim>\<open>arr.reshape((rows, cols))\<close> of a one-dimensional array. A negative entry of the new
  shape stands for the one dimension to be inferred: two of them raise \<^verbatim>\<open>ValueError\<close>,
  and so does one that cannot be inferred (the known dimension is 0 or does not divide
  the size). Without a negative entry the product of the shape must be the size.
\<close>

definition np_reshape :: "'a list \<Rightarrow> int \<times> int \<Rightarrow> error + 'a ndarray" where
  "np_reshape arr newshape =
     (let rows = fst newshape; cols = snd newshape; n = length arr in
      if rows < 0 \<and> cols < 0 then Inl ValueError
      else if rows < 0 then
        (if cols = 0 \<or> n mod nat cols \<noteq> 0 then Inl ValueError
         else Inr \<lparr>shape = (n div nat cols, nat cols), items = arr\<rparr>)
      else if cols < 0 then
        (if rows = 0 \<or> n mod nat rows \<noteq> 0 then Inl ValueError
         else Inr \<lparr>shape = (nat rows, n div nat rows), items = arr\<rparr>)
      else if rows * cols \<noteq> int n then Inl ValueError
      else Inr \<lparr>shape = (nat rows, nat cols), items = arr\<rparr>)"

subsection \<open>The frame loop\<close>

text \<open>
  The state of the loop \<^verbatim>\<open>for i in range(frame_count)\<close>: the position of the open file,
  the lines printed so far and the list \<^verbatim>\<open>frames\<close>. The loop runs over the indices still
  to come; it returns the state it stops in, with the exception that ended it if one
  did. A short read prints the warning and leaves the loop (\<^verbatim>\<open>break\<close>).
\<close>

record reader_state =
  fpos :: nat
  stdout :: "message list"
  frames :: "complex128 ndarray list"

fun read_frames ::
  "nat \<Rightarrow> byte list \<Rightarrow> int \<Rightarrow> int \<Rightarrow> int \<Rightarrow> int list \<Rightarrow> reader_state
     \<Rightarrow> error option \<times> reader_state"
where
  "read_frames mem content width height frame_size_bytes [] st = (None, st)"
| "read_frames mem content width height frame_size_bytes (i # is) st =
     (case f_read mem content (fpos st) frame_size_bytes of
        Inl e \<Rightarrow> (Some e, st)
      | Inr (data, pos') \<Rightarrow>
          if int (length data) \<noteq> frame_size_bytes
          then (None, st\<lparr>fpos := pos', stdout := stdout st @ [IncompleteFrame i]\<rparr>)
          else
            (case np_frombuffer data of
               Inl e \<Rightarrow> (Some e, st\<lparr>fpos := pos'\<rparr>)
             | Inr arr \<Rightarrow>
                 (case np_reshape arr (height, width) of
                    Inl e \<Rightarrow> (Some e, st\<lparr>fpos := pos'\<rparr>)
                  | Inr fr \<Rightarrow>
                      read_frames mem content width height frame_size_bytes is
                        (st\<lparr>fpos := pos', frames := frames st @ [fr]\<rparr>))))"

text \<open>\<^verbatim>\<open>range(n)\<close>: the integers from 0 up to, not including, \<open>n\<close>; empty when \<open>n \<le> 0\<close>.\<close>

definition py_range :: "int \<Rightarrow> int list" where
  "py_range n = map int [0..<nat n]"

subsection \<open>\<^verbatim>\<open>read_trajectory\<close>\<close>

text \<open>
  A run of \<^verbatim>\<open>read_trajectory\<close> is what it printed, how many bytes of the file it had
  read when it ended, and its outcome: the exception that ended it, or the returned
  triple \<^verbatim>\<open>(width, height, frames)\<close>.
\<close>

record run =
  printed :: "message list"
  bytes_read :: nat
  outcome :: "error + (int \<times> int \<times> complex128 ndarray list)"

definition read_trajectory :: "nat \<Rightarrow> (string \<rightharpoonup> byte list) \<Rightarrow> string \<Rightarrow> run" where
  "read_trajectory mem files filename =
     (case files filename of
        None \<Rightarrow>
          \<lparr>printed = [FileNotFound filename], bytes_read = 0, outcome = Inl (SystemExit 1)\<rparr>
      | Some content \<Rightarrow>
          (case f_read mem content 0 4 of
             Inl e \<Rightarrow> \<lparr>printed = [], bytes_read = 0, outcome = Inl e\<rparr>
           | Inr (magic, pos1) \<Rightarrow>
               if magic \<noteq> SCHR
               then \<lparr>printed = [MagicMismatch], bytes_read = pos1, outcome = Inl (SystemExit 1)\<rparr>
               else
                 (case f_read mem content pos1 12 of
                    Inl e \<Rightarrow> \<lparr>printed = [], bytes_read = pos1, outcome = Inl e\<rparr>
                  | Inr (hdr, pos2) \<Rightarrow>
                      (case struct_unpack_iii hdr of
                         Inl e \<Rightarrow> \<lparr>printed = [], bytes_read = pos2, outcome = Inl e\<rparr>
                       | Inr (width, height, frame_count) \<Rightarrow>
                           (let num_pixels = width * height;
                                frame_size_bytes = num_pixels * 16;
                                (exc, st) =
                                  read_frames mem content width height frame_size_bytes
                                    (py_range frame_count)
                                    \<lparr>fpos = pos2,
                                     stdout = [Loading filename width height frame_count],
                                     frames = []\<rparr>
                            in \<lparr>printed = stdout st, bytes_read = fpos st,
                                outcome = (case exc of
                                             Some e \<Rightarrow> Inl e
                                           | None \<Rightarrow> Inr (width, height, frames st))\<rparr>)))))"

subsection \<open>Reference values\<close>

text \<open>
  The frame that the \<open>width * height * 16\<close> bytes at position \<open>pos\<close> of a file hold, read
  off the file itself: the array of shape \<open>(height, width)\<close> whose item \<open>k\<close> has as real part
  the 8 bytes of the file at \<open>pos + 16 * k\<close> and as imaginary part the 8 bytes after them.
  The loop is verified against it.
\<close>

definition frame_at :: "byte list \<Rightarrow> nat \<Rightarrow> int \<Rightarrow> int \<Rightarrow> complex128 ndarray" where
  "frame_at content pos height width =
     \<lparr>shape = (nat height, nat width),
      items = map (\<lambda>k. (float64_le (take 8 (drop (pos + 16 * k) content)),
                        float64_le (take 8 (drop (pos + 16 * k + 8) content))))
                [0..<nat (width * height)]\<rparr>"

text \<open>
  An example file: the header \<open>(width, height, frame_count) = (1, 1, 5)\<close>, two whole frames
  of one sample each, and three bytes of a third.
\<close>

definition truncated_file :: "byte list" where
  "truncated_file =
     [0x53, 0x43, 0x48, 0x52,  1, 0, 0, 0,  1, 0, 0, 0,  5, 0, 0, 0,
      1, 0, 0, 0, 0, 0, 0, 0,  2, 0, 0, 0, 0, 0, 0, 0,
      3, 0, 0, 0, 0, 0, 0, 0,  4, 0, 0, 0, 0, 0, 0, 0,
      9, 9, 9]"



text \<open>
  Two files with the valid header \<open>(2147483647, 2147483647, frame_count)\<close>, whose frame size
  \<open>width * height * 16\<close> is above \<open>2 ^ 63\<close>: one declares 1 frame and has no payload, the other
  declares 5 frames and has 3 bytes of payload.
\<close>

definition huge_frame_file :: "byte list" where
  "huge_frame_file =
     [0x53, 0x43, 0x48, 0x52,  255, 255, 255, 127,  255, 255, 255, 127,  1, 0, 0, 0]"

definition huge_frame_short_file :: "byte list" where
  "huge_frame_short_file =
     [0x53, 0x43, 0x48, 0x52,  255, 255, 255, 127,  255, 255, 255, 127,  5, 0, 0, 0,
      9, 9, 9]"

section \<open>The colour map of \<^verbatim>\<open>visualizer.py\<close>\<close>

text \<open>
  \<^verbatim>\<open>complex_to_rgb\<close> works on whole arrays and writes into two of them in place
  (\<^verbatim>\<open>y[valid_mask] = ...\<close> and \<^verbatim>\<open>scaled_z[valid_mask] = ...\<close>), so arrays live in a store, at
  addresses, with the first address not yet in use. A variable of the source that names
  an array is an address here. Boolean masks and the arrays of the final expressions,
  which nothing writes to after they are made, are values.

  A sample is a finite complex number, and a float is taken as the real number it stands
  for: rounding is not modelled. Overflow is: the modulus of a finite sample can be too
  large for a double, and \<^verbatim>\<open>np.abs\<close> then gives \<^verbatim>\<open>inf\<close>. So the items of the array \<^verbatim>\<open>a\<close> are
  amplitudes, each a real number or \<^verbatim>\<open>inf\<close>; the other float arrays of the function hold
  finite numbers only (0, or an arc tangent over \<open>pi\<close>) and are arrays of reals.
\<close>

datatype amplitude = Finite real | PlusInfinity

record store =
  complex_arrays :: "nat \<Rightarrow> complex ndarray"
  float_arrays :: "nat \<Rightarrow> real ndarray"
  amplitude_arrays :: "nat \<Rightarrow> amplitude ndarray"
  next_free :: nat

text \<open>Making a new array: it gets the first free address.\<close>

definition new_complex :: "store \<Rightarrow> complex ndarray \<Rightarrow> nat \<times> store" where
  "new_complex s arr =
     (next_free s,
      s\<lparr>complex_arrays := (complex_arrays s)(next_free s := arr),
        next_free := Suc (next_free s)\<rparr>)"

definition new_float :: "store \<Rightarrow> real ndarray \<Rightarrow> nat \<times> store" where
  "new_float s arr =
     (next_free s,
      s\<lparr>float_arrays := (float_arrays s)(next_free s := arr),
        next_free := Suc (next_free s)\<rparr>)"

definition new_amplitude :: "store \<Rightarrow> amplitude ndarray \<Rightarrow> nat \<times> store" where
  "new_amplitude s arr =
     (next_free s,
      s\<lparr>amplitude_arrays := (amplitude_arrays s)(next_free s := arr),
        next_free := Suc (next_free s)\<rparr>)"

text \<open>
  \<^verbatim>\<open>np.abs\<close> of a complex double is the modulus rounded to a double. The largest finite
  double is \<open>2 ^ 1024 - 2 ^ 971\<close>, and a modulus of \<open>2 ^ 1024 - 2 ^ 970\<close> or more, half a step
  above it, rounds to \<^verbatim>\<open>inf\<close>.
\<close>

definition max_float :: real where
  "max_float = 2 ^ 1024 - 2 ^ 971"

definition np_abs_item :: "complex \<Rightarrow> amplitude" where
  "np_abs_item c = (if cmod c < 2 ^ 1024 - 2 ^ 970 then Finite (cmod c) else PlusInfinity)"

definition np_abs :: "store \<Rightarrow> nat \<Rightarrow> nat \<times> store" where
  "np_abs s z =
     new_amplitude s \<lparr>shape = shape (complex_arrays s z),
                      items = map np_abs_item (items (complex_arrays s z))\<rparr>"

text \<open>
  The operations on amplitudes that the function uses: the comparison \<^verbatim>\<open>a > 1e-9\<close>,
  \<^verbatim>\<open>np.arctan(a)\<close>, whose value at \<^verbatim>\<open>inf\<close> is \<open>pi / 2\<close>, and the division of a finite number
  by \<^verbatim>\<open>a\<close>, which is 0 at \<^verbatim>\<open>inf\<close>. The literal \<^verbatim>\<open>1e-9\<close> decides a branch, so it is the
  double that it denotes, \<open>4835703278458517 / 2 ^ 82\<close>, a little above \<open>1 / 10 ^ 9\<close>.
\<close>

definition double_1e_9 :: real where
  "double_1e_9 = 4835703278458517 / 2 ^ 82"

fun amplitude_gt :: "amplitude \<Rightarrow> real \<Rightarrow> bool" where
  "amplitude_gt (Finite x) t = (x > t)"
| "amplitude_gt PlusInfinity t = True"

fun np_arctan :: "amplitude \<Rightarrow> real" where
  "np_arctan (Finite x) = arctan x"
| "np_arctan PlusInfinity = pi / 2"

fun true_divide :: "real \<Rightarrow> amplitude \<Rightarrow> real" where
  "true_divide x (Finite d) = x / d"
| "true_divide x PlusInfinity = 0"

text \<open>\<^verbatim>\<open>np.zeros_like\<close> makes a new array of the shape of its argument.\<close>

definition zeros_like_float :: "store \<Rightarrow> nat \<Rightarrow> nat \<times> store" where
  "zeros_like_float s a =
     new_float s \<lparr>shape = shape (amplitude_arrays s a),
                  items = map (\<lambda>_. 0) (items (amplitude_arrays s a))\<rparr>"

definition zeros_like_complex :: "store \<Rightarrow> nat \<Rightarrow> nat \<times> store" where
  "zeros_like_complex s z =
     new_complex s \<lparr>shape = shape (complex_arrays s z),
                    items = map (\<lambda>_. 0) (items (complex_arrays s z))\<rparr>"

text \<open>
  Indexing with a boolean mask, on the items in row-major order: \<^verbatim>\<open>x[mask]\<close> is the list of
  the items where the mask holds, and \<^verbatim>\<open>x[mask] = vals\<close> writes the values, in order, at
  those places. In \<^verbatim>\<open>complex_to_rgb\<close> the mask has the length of the array and the values
  are as many as the places (see \<open>getitem_mask_map\<close>), the cases in which numpy raises
  nothing; elsewhere \<open>setitem_mask\<close> leaves the rest of the array as it is.
\<close>

fun getitem_mask :: "'a list \<Rightarrow> bool list \<Rightarrow> 'a list" where
  "getitem_mask (x # xs) (m # ms) = (if m then x # getitem_mask xs ms else getitem_mask xs ms)"
| "getitem_mask _ _ = []"

fun setitem_mask :: "'a list \<Rightarrow> bool list \<Rightarrow> 'a list \<Rightarrow> 'a list" where
  "setitem_mask (x # xs) (True # ms) (v # vs) = v # setitem_mask xs ms vs"
| "setitem_mask (x # xs) (False # ms) vs = x # setitem_mask xs ms vs"
| "setitem_mask xs _ _ = xs"

definition setitem_float ::
  "store \<Rightarrow> nat \<Rightarrow> bool list \<Rightarrow> real list \<Rightarrow> store"
where
  "setitem_float s y valid_mask vals =
     s\<lparr>float_arrays := (float_arrays s)
         (y := (float_arrays s y)
                 \<lparr>items := setitem_mask (items (float_arrays s y)) valid_mask vals\<rparr>)\<rparr>"

definition setitem_complex ::
  "store \<Rightarrow> nat \<Rightarrow> bool list \<Rightarrow> complex list \<Rightarrow> store"
where
  "setitem_complex s z valid_mask vals =
     s\<lparr>complex_arrays := (complex_arrays s)
         (z := (complex_arrays s z)
                 \<lparr>items := setitem_mask (items (complex_arrays s z)) valid_mask vals\<rparr>)\<rparr>"

text \<open>\<^verbatim>\<open>np.clip(x, lo, hi)\<close> on one item.\<close>

definition np_clip :: "real \<Rightarrow> real \<Rightarrow> real \<Rightarrow> real" where
  "np_clip x lo hi = min (max x lo) hi"

type_synonym rgb = "real \<times> real \<times> real"

text \<open>
  \<^verbatim>\<open>complex_to_rgb(z)\<close>, statement by statement; it returns the image and the store it
  leaves. \<^verbatim>\<open>scaled_z.real\<close> and \<^verbatim>\<open>scaled_z.imag\<close> are views of \<^verbatim>\<open>scaled_z\<close>, read here when
  they are used. The image \<^verbatim>\<open>np.dstack((r, g, b))\<close>, of shape \<open>(height, width, 3)\<close>, is an
  array of shape \<open>(height, width)\<close> of triples.
\<close>

definition complex_to_rgb :: "store \<Rightarrow> nat \<Rightarrow> rgb ndarray \<times> store" where
  "complex_to_rgb s0 z =
     (let (a, s1) = np_abs s0 z;
          valid_mask = map (\<lambda>x. amplitude_gt x double_1e_9) (items (amplitude_arrays s1 a));
          (y, s2) = zeros_like_float s1 a;
          s3 = setitem_float s2 y valid_mask
                 (map (\<lambda>x. np_arctan x / pi)
                    (getitem_mask (items (amplitude_arrays s2 a)) valid_mask));
          (scaled_z, s4) = zeros_like_complex s3 z;
          s5 = setitem_complex s4 scaled_z valid_mask
                 (map2 (\<lambda>c f. c * complex_of_real f)
                    (getitem_mask (items (complex_arrays s4 z)) valid_mask)
                    (map2 (\<lambda>yv av. true_divide (0.5 * yv) av)
                       (getitem_mask (items (float_arrays s4 y)) valid_mask)
                       (getitem_mask (items (amplitude_arrays s4 a)) valid_mask)));
          u = map Re (items (complex_arrays s5 scaled_z));
          v = map Im (items (complex_arrays s5 scaled_z));
          r = map2 (\<lambda>yv vv. yv + 1.5748 * vv) (items (float_arrays s5 y)) v;
          g = map2 (\<lambda>yv (uv, vv). yv - 0.1873 * uv - 0.4681 * vv)
                (items (float_arrays s5 y)) (zip u v);
          b = map2 (\<lambda>yv uv. yv + 1.8556 * uv) (items (float_arrays s5 y)) u;
          rgb = zip r (zip g b)
      in (\<lparr>shape = shape (float_arrays s5 y),
           items = map (\<lambda>(rv, gv, bv). (np_clip rv 0 1, np_clip gv 0 1, np_clip bv 0 1)) rgb\<rparr>,
          s5))"

text \<open>
  What the array code comes to for one sample (\<open>complex_to_rgb_image\<close> below proves it).
\<close>

definition sample_pixel :: "complex \<Rightarrow> rgb" where
  "sample_pixel c =
     (let a = np_abs_item c in
      if amplitude_gt a double_1e_9 then
        (let y = np_arctan a / pi;
             f = true_divide (0.5 * y) a;
             u = Re c * f;
             v = Im c * f
         in (np_clip (y + 1.5748 * v) 0 1,
             np_clip (y - 0.1873 * u - 0.4681 * v) 0 1,
             np_clip (y + 1.8556 * u) 0 1))
      else (0, 0, 0))"

text \<open>
  The pixel of one sample as section 4.2 of the specification words it, over the real
  numbers.
\<close>

definition spec_pixel :: "complex \<Rightarrow> rgb" where
  "spec_pixel z =
     (let x = Re z; y = Im z; a = sqrt (x\<^sup>2 + y\<^sup>2) in
      if a \<le> 1 / 10 ^ 9 then (0, 0, 0)
      else
        (let lum = arctan a / pi;
             scale = 0.5 * lum / a;
             u = scale * x;
             v = scale * y
         in (np_clip (lum + 1.5748 * v) 0 1,
             np_clip (lum - 0.1873 * u - 0.4681 * v) 0 1,
             np_clip (lum + 1.8556 * u) 0 1)))"

text \<open>
  Two example stores. Both hold the frame of shape \<open>(1, 2)\<close> with the samples \<open>1 + 0i\<close> and
  \<open>0\<close>: the first at address 0, the second at address 1 beside other arrays.
\<close>

definition example_store :: store where
  "example_store =
     \<lparr>complex_arrays = (\<lambda>_. \<lparr>shape = (0, 0), items = []\<rparr>)
                         (0 := \<lparr>shape = (1, 2), items = [1, 0]\<rparr>),
      float_arrays = (\<lambda>_. \<lparr>shape = (0, 0), items = []\<rparr>),
      amplitude_arrays = (\<lambda>_. \<lparr>shape = (0, 0), items = []\<rparr>),
      next_free = 1\<rparr>"

definition example_store2 :: store where
  "example_store2 =
     \<lparr>complex_arrays = (\<lambda>_. \<lparr>shape = (0, 0), items = []\<rparr>)
                         (1 := \<lparr>shape = (1, 2), items = [1, 0]\<rparr>),
      float_arrays = (\<lambda>_. \<lparr>shape = (1, 1), items = [7]\<rparr>),
      amplitude_arrays = (\<lambda>_. \<lparr>shape = (0, 0), items = []\<rparr>),
      next_free = 2\<rparr>"

text \<open>
  A finite sample whose modulus overflows: real and imaginary part are the double
  \<open>3 * 2 ^ 1022\<close>, about \<open>1.35e308\<close>. The store holds the frame of that one sample.
\<close>

definition overflow_sample :: complex where
  "overflow_sample = Complex (3 * 2 ^ 1022) (3 * 2 ^ 1022)"

definition overflow_store :: store where
  "overflow_store =
     \<lparr>complex_arrays = (\<lambda>_. \<lparr>shape = (0, 0), items = []\<rparr>)
                         (0 := \<lparr>shape = (1, 1), items = [overflow_sample]\<rparr>),
      float_arrays = (\<lambda>_. \<lparr>shape = (0, 0), items = []\<rparr>),
      amplitude_arrays = (\<lambda>_. \<lparr>shape = (0, 0), items = []\<rparr>),
      next_free = 1\<rparr>"

section \<open>Properties of the reader\<close>

subsection \<open>The header\<close>

lemma length_SCHR: "length SCHR = 4"
  by (simp add: SCHR_def)

lemma magic_length: "take 4 content = SCHR \<Longrightarrow> 4 \<le> length content"
  using length_SCHR [symmetric] by (cases "4 \<le> length content") auto

lemma f_read_magic: "f_read mem content 0 4 = Inr (take 4 content, min 4 (length content))"
  by (simp add: f_read_def DEFAULT_BUFFER_SIZE_def min_def)

lemma f_read_header:
  "f_read mem content 4 12 = Inr (take 12 (drop 4 content), 4 + min 12 (length content - 4))"
  by (simp add: f_read_def DEFAULT_BUFFER_SIZE_def min_def)

lemma header_fields:
  "length content \<ge> 16 \<Longrightarrow>
   struct_unpack_iii (take 12 (drop 4 content)) =
     Inr (int32_le (take 4 (drop 4 content)), int32_le (take 4 (drop 8 content)),
          int32_le (take 4 (drop 12 content)))"
  by (simp add: struct_unpack_iii_def take_drop min_def add.commute)

lemma header_short:
  "length content < 16 \<Longrightarrow> struct_unpack_iii (take 12 (drop 4 content)) = Inl StructError"
  by (simp add: struct_unpack_iii_def)

text \<open>The run of a file that has the magic tag and a whole header, up to the loop.\<close>

lemma read_trajectory_header:
  assumes "files filename = Some content" and "take 4 content = SCHR"
    and "16 \<le> length content"
  shows "read_trajectory mem files filename =
    (let width = int32_le (take 4 (drop 4 content));
         height = int32_le (take 4 (drop 8 content));
         frame_count = int32_le (take 4 (drop 12 content));
         (exc, st) = read_frames mem content width height (width * height * 16)
                       (py_range frame_count)
                       \<lparr>fpos = 16, stdout = [Loading filename width height frame_count],
                        frames = []\<rparr>
     in \<lparr>printed = stdout st, bytes_read = fpos st,
         outcome = (case exc of Some e \<Rightarrow> Inl e | None \<Rightarrow> Inr (width, height, frames st))\<rparr>)"
  using assms
  by (simp add: read_trajectory_def f_read_magic f_read_header header_fields min_def Let_def)

text \<open>
  Claim C4. A file whose first four bytes are not \<^verbatim>\<open>SCHR\<close> (a file shorter than four
  bytes among them) makes \<^verbatim>\<open>read_trajectory\<close> print the magic-mismatch error and leave
  through \<^verbatim>\<open>sys.exit(1)\<close>: nothing is returned, and nothing is read beyond the four bytes
  of the tag, so no frame is decoded.
\<close>

theorem read_trajectory_bad_magic:
  assumes "files filename = Some content" and "take 4 content \<noteq> SCHR"
  shows "read_trajectory mem files filename =
    \<lparr>printed = [MagicMismatch], bytes_read = min 4 (length content),
     outcome = Inl (SystemExit 1)\<rparr>"
  using assms by (simp add: read_trajectory_def f_read_magic)

text \<open>
  Claim C5. A file that starts with the magic tag and has fewer than 12 further bytes
  ends \<^verbatim>\<open>read_trajectory\<close> with the uncaught \<^verbatim>\<open>struct.error\<close> of \<^verbatim>\<open>struct.unpack\<close>:
  the load fails on the truncated header, nothing is printed and nothing is returned.
\<close>

theorem read_trajectory_truncated_header:
  assumes "files filename = Some content" and "take 4 content = SCHR"
    and "length content < 16"
  shows "read_trajectory mem files filename =
    \<lparr>printed = [], bytes_read = length content, outcome = Inl StructError\<rparr>"
proof -
  have len: "4 \<le> length content" by (rule magic_length [OF assms(2)])
  have hdr: "struct_unpack_iii (take 12 (drop 4 content)) = Inl StructError"
    by (rule header_short [OF assms(3)])
  have pos: "4 + min 12 (length content - 4) = length content"
    using len assms(3) by simp
  show ?thesis
    by (simp add: read_trajectory_def assms(1,2) f_read_magic f_read_header hdr pos len)
qed

text \<open>
  Claim C10. With the magic tag, a whole header and a negative declared frame count,
  \<^verbatim>\<open>read_trajectory\<close> does not fail: it returns the decoded width and height with an
  empty list of frames, and it has read the 16 bytes of the header and no byte of the
  payload.
\<close>

theorem read_trajectory_negative_frame_count:
  assumes "files filename = Some content" and "take 4 content = SCHR"
    and "16 \<le> length content"
    and "int32_le (take 4 (drop 12 content)) < 0"
  shows "read_trajectory mem files filename =
    \<lparr>printed = [Loading filename (int32_le (take 4 (drop 4 content)))
                  (int32_le (take 4 (drop 8 content))) (int32_le (take 4 (drop 12 content)))],
     bytes_read = 16,
     outcome = Inr (int32_le (take 4 (drop 4 content)), int32_le (take 4 (drop 8 content)), [])\<rparr>"
  using assms(4) read_trajectory_header [of files filename content mem, OF assms(1-3)]
  by (simp add: py_range_def Let_def)

text \<open>The tag \<^verbatim>\<open>ABCD\<close> in place of \<^verbatim>\<open>SCHR\<close>.\<close>

theorem read_trajectory_bad_magic_witness:
  "[''t.bin'' \<mapsto> [0x41, 0x42, 0x43, 0x44, 1, 0, 0, 0]] ''t.bin'' = Some [0x41, 0x42, 0x43, 0x44, 1, 0, 0, 0]
   \<and> take 4 [0x41, 0x42, 0x43, 0x44, 1, 0, 0, 0] \<noteq> SCHR
   \<and> read_trajectory 0 [''t.bin'' \<mapsto> [0x41, 0x42, 0x43, 0x44, 1, 0, 0, 0]] ''t.bin'' =
        \<lparr>printed = [MagicMismatch], bytes_read = 4, outcome = Inl (SystemExit 1)\<rparr>"
  using read_trajectory_bad_magic
    [where mem = 0 and files = "[''t.bin'' \<mapsto> [0x41, 0x42, 0x43, 0x44, 1, 0, 0, 0]]"
      and filename = "''t.bin''"
      and content = "[0x41, 0x42, 0x43, 0x44, 1, 0, 0, 0]"]
  by (simp add: SCHR_def)

text \<open>The tag followed by 7 bytes only.\<close>

theorem read_trajectory_truncated_header_witness:
  "[''t.bin'' \<mapsto> [0x53, 0x43, 0x48, 0x52, 1, 0, 0, 0, 1, 0, 0]] ''t.bin''
     = Some [0x53, 0x43, 0x48, 0x52, 1, 0, 0, 0, 1, 0, 0]
   \<and> take 4 [0x53, 0x43, 0x48, 0x52, 1, 0, 0, 0, 1, 0, 0] = SCHR
   \<and> length [0x53, 0x43, 0x48, 0x52, 1, 0, 0, 0, 1, 0, 0 :: byte] < 16
   \<and> read_trajectory 0 [''t.bin'' \<mapsto> [0x53, 0x43, 0x48, 0x52, 1, 0, 0, 0, 1, 0, 0]] ''t.bin'' =
        \<lparr>printed = [], bytes_read = 11, outcome = Inl StructError\<rparr>"
  using read_trajectory_truncated_header
    [where mem = 0 and files = "[''t.bin'' \<mapsto> [0x53, 0x43, 0x48, 0x52, 1, 0, 0, 0, 1, 0, 0]]"
      and filename = "''t.bin''"
      and content = "[0x53, 0x43, 0x48, 0x52, 1, 0, 0, 0, 1, 0, 0]"]
  by (simp add: SCHR_def)

text \<open>A header \<open>(2, 3, -1)\<close> followed by two bytes of payload.\<close>

theorem read_trajectory_negative_frame_count_witness:
  "[''t.bin'' \<mapsto> [0x53, 0x43, 0x48, 0x52, 2, 0, 0, 0, 3, 0, 0, 0, 255, 255, 255, 255, 9, 9]] ''t.bin''
     = Some [0x53, 0x43, 0x48, 0x52, 2, 0, 0, 0, 3, 0, 0, 0, 255, 255, 255, 255, 9, 9]
   \<and> take 4 [0x53, 0x43, 0x48, 0x52, 2, 0, 0, 0, 3, 0, 0, 0, 255, 255, 255, 255, 9, 9] = SCHR
   \<and> 16 \<le> length [0x53, 0x43, 0x48, 0x52, 2, 0, 0, 0, 3, 0, 0, 0, 255, 255, 255, 255, 9, 9 :: byte]
   \<and> int32_le (take 4 (drop 12 [0x53, 0x43, 0x48, 0x52, 2, 0, 0, 0, 3, 0, 0, 0, 255, 255, 255, 255, 9, 9])) < 0
   \<and> read_trajectory 0
        [''t.bin'' \<mapsto> [0x53, 0x43, 0x48, 0x52, 2, 0, 0, 0, 3, 0, 0, 0, 255, 255, 255, 255, 9, 9]] ''t.bin'' =
        \<lparr>printed = [Loading ''t.bin'' 2 3 (- 1)], bytes_read = 16, outcome = Inr (2, 3, [])\<rparr>"
  using read_trajectory_negative_frame_count
    [where mem = 0 and files = "[''t.bin'' \<mapsto> [0x53, 0x43, 0x48, 0x52, 2, 0, 0, 0, 3, 0, 0, 0, 255, 255, 255, 255, 9, 9]]"
      and filename = "''t.bin''"
      and content = "[0x53, 0x43, 0x48, 0x52, 2, 0, 0, 0, 3, 0, 0, 0, 255, 255, 255, 255, 9, 9]"]
  by (simp add: SCHR_def int32_le_def)

subsection \<open>The frame loop\<close>

lemma f_read_full:
  "0 \<le> n \<Longrightarrow> readable mem n \<Longrightarrow> pos + nat n \<le> length content \<Longrightarrow>
   f_read mem content pos n = Inr (take (nat n) (drop pos content), pos + nat n)"
  by (auto simp: f_read_def readable_def min_def)

lemma f_read_short:
  "0 \<le> n \<Longrightarrow> readable mem n \<Longrightarrow> pos \<le> length content \<Longrightarrow>
   length content < pos + nat n \<Longrightarrow>
   f_read mem content pos n = Inr (drop pos content, length content)"
  by (auto simp: f_read_def readable_def min_def)

text \<open>An item of a whole chunk of the file is the item of the file at that place.\<close>

lemma complex128_at_chunk:
  assumes "16 * k + 16 \<le> n"
  shows "complex128_at (take n (drop pos content)) k =
         (float64_le (take 8 (drop (pos + 16 * k) content)),
          float64_le (take 8 (drop (pos + 16 * k + 8) content)))"
proof -
  have a: "take 8 (drop (16 * k) (take n (drop pos content))) =
           take 8 (drop (pos + 16 * k) content)"
    using assms by (simp add: drop_take min_def add.commute)
  have b: "take 8 (drop (16 * k + 8) (take n (drop pos content))) =
           take 8 (drop (pos + 16 * k + 8) content)"
    using assms by (simp add: drop_take min_def add.commute add.left_commute)
  show ?thesis by (simp only: complex128_at_def a b)
qed

lemma frame_at_chunk:
  assumes "0 \<le> width * height"
  shows "\<lparr>shape = (nat height, nat width),
          items = map (complex128_at (take (nat (width * height * 16)) (drop pos content)))
                    [0..<nat (width * height)]\<rparr> =
         frame_at content pos height width"
proof -
  have "complex128_at (take (nat (width * height * 16)) (drop pos content)) k =
         (float64_le (take 8 (drop (pos + 16 * k) content)),
          float64_le (take 8 (drop (pos + 16 * k + 8) content)))"
    if "k < nat (width * height)" for k
  proof (rule complex128_at_chunk)
    have "nat (width * height * 16) = 16 * nat (width * height)"
      using assms by (simp add: nat_mult_distrib mult.commute)
    with that show "16 * k + 16 \<le> nat (width * height * 16)" by simp
  qed
  then show ?thesis by (simp add: frame_at_def)
qed

lemma decode_full:
  assumes "0 < width" and "0 < height" and "length data = nat (width * height * 16)"
  shows "np_frombuffer data = Inr (map (complex128_at data) [0..<nat (width * height)])"
    and "np_reshape (map (complex128_at data) [0..<nat (width * height)]) (height, width)
         = Inr \<lparr>shape = (nat height, nat width),
                items = map (complex128_at data) [0..<nat (width * height)]\<rparr>"
proof -
  have pos: "0 \<le> width * height" using assms(1,2) by simp
  have len: "length data = 16 * nat (width * height)"
    using assms(3) pos by (simp add: nat_mult_distrib mult.commute)
  show "np_frombuffer data = Inr (map (complex128_at data) [0..<nat (width * height)])"
    by (simp add: np_frombuffer_def len)
  show "np_reshape (map (complex128_at data) [0..<nat (width * height)]) (height, width)
         = Inr \<lparr>shape = (nat height, nat width),
                items = map (complex128_at data) [0..<nat (width * height)]\<rparr>"
    using assms(1,2) pos by (simp add: np_reshape_def Let_def mult.commute)
qed

lemma read_frames_step_full:
  assumes "0 < width" and "0 < height" and "readable mem (width * height * 16)"
    and "fpos st + nat (width * height * 16) \<le> length content"
  shows "read_frames mem content width height (width * height * 16) (i # is) st =
         read_frames mem content width height (width * height * 16) is
           (st\<lparr>fpos := fpos st + nat (width * height * 16),
               frames := frames st @ [frame_at content (fpos st) height width]\<rparr>)"
proof -
  have nn: "0 \<le> width * height * 16" using assms(1,2) by simp
  have area: "0 \<le> width * height" using assms(1,2) by simp
  let ?data = "take (nat (width * height * 16)) (drop (fpos st) content)"
  have len: "length ?data = nat (width * height * 16)" using assms(4) by simp
  have rd: "f_read mem content (fpos st) (width * height * 16)
            = Inr (?data, fpos st + nat (width * height * 16))"
    by (rule f_read_full [OF nn assms(3,4)])
  have mn: "min (length content - fpos st) (nat (width * height * 16)) = nat (width * height * 16)"
    using assms(4) by simp
  have sz: "int (length ?data) = width * height * 16"
    using nn by (simp add: mn)
  show ?thesis
    unfolding read_frames.simps rd
    by (simp only: sum.case prod.case sz decode_full [OF assms(1,2) len] frame_at_chunk [OF area]
        not_not not_True_eq_False refl if_False)
qed

lemma read_frames_step_short:
  assumes "0 < width" and "0 < height" and "readable mem (width * height * 16)"
    and "fpos st \<le> length content"
    and "length content < fpos st + nat (width * height * 16)"
  shows "read_frames mem content width height (width * height * 16) (i # is) st =
         (None, st\<lparr>fpos := length content, stdout := stdout st @ [IncompleteFrame i]\<rparr>)"
proof -
  have nn: "0 \<le> width * height * 16" using assms(1,2) by simp
  have rd: "f_read mem content (fpos st) (width * height * 16)
            = Inr (drop (fpos st) content, length content)"
    by (rule f_read_short [OF nn assms(3,4,5)])
  have "int (length content - fpos st) \<noteq> width * height * 16"
    using assms(4,5) nn by linarith
  then show ?thesis by (simp add: rd)
qed

lemma map_upt_Suc_shift: "map f [0..<Suc n] = f 0 # map (\<lambda>k. f (Suc k)) [0..<n]"
  by (simp only: upt_conv_Cons [of 0 "Suc n"] zero_less_Suc list.map map_Suc_upt [symmetric]
      map_map o_def)

lemma read_frames_full_prefix:
  assumes "0 < width" and "0 < height" and "readable mem (width * height * 16)"
    and "fpos st + length is1 * nat (width * height * 16) \<le> length content"
  shows "read_frames mem content width height (width * height * 16) (is1 @ rest) st =
         read_frames mem content width height (width * height * 16) rest
           (st\<lparr>fpos := fpos st + length is1 * nat (width * height * 16),
               frames := frames st @
                 map (\<lambda>k. frame_at content (fpos st + k * nat (width * height * 16)) height width)
                   [0..<length is1]\<rparr>)"
  using assms(4)
proof (induction is1 arbitrary: st)
  case Nil
  show ?case by simp
next
  case (Cons i is1)
  let ?fs = "nat (width * height * 16)"
  let ?st = "st\<lparr>fpos := fpos st + ?fs, frames := frames st @ [frame_at content (fpos st) height width]\<rparr>"
  have one: "fpos st + ?fs \<le> length content" using Cons.prems by simp
  have rest: "fpos ?st + length is1 * ?fs \<le> length content" using Cons.prems by simp
  have "read_frames mem content width height (width * height * 16) ((i # is1) @ rest) st =
        read_frames mem content width height (width * height * 16) (is1 @ rest) ?st"
    using read_frames_step_full [OF assms(1,2,3) one] by simp
  also have "\<dots> = read_frames mem content width height (width * height * 16) rest
           (?st\<lparr>fpos := fpos ?st + length is1 * ?fs,
               frames := frames ?st @
                 map (\<lambda>k. frame_at content (fpos ?st + k * ?fs) height width)
                   [0..<length is1]\<rparr>)"
    by (rule Cons.IH [OF rest])
  also have "(?st\<lparr>fpos := fpos ?st + length is1 * ?fs,
               frames := frames ?st @
                 map (\<lambda>k. frame_at content (fpos ?st + k * ?fs) height width)
                   [0..<length is1]\<rparr>) =
             (st\<lparr>fpos := fpos st + length (i # is1) * ?fs,
               frames := frames st @
                 map (\<lambda>k. frame_at content (fpos st + k * ?fs) height width)
                   [0..<length (i # is1)]\<rparr>)"
    by (simp add: map_upt_Suc_shift add.assoc del: upt_Suc)
  finally show ?case .
qed

lemma py_range_split:
  "a < nat n \<Longrightarrow> py_range n = map int [0..<a] @ int a # map int [Suc a..<nat n]"
proof -
  assume lt: "a < nat n"
  have "[0..<nat n] = [0..<a] @ [a..<nat n]"
    using upt_add_eq_append [of 0 a "nat n - a"] lt by simp
  also have "[a..<nat n] = a # [Suc a..<nat n]"
    using lt by (rule upt_conv_Cons)
  finally show ?thesis by (simp add: py_range_def)
qed

lemma read_trajectory_all_frames:
  assumes "files filename = Some content" and "take 4 content = SCHR"
    and "16 \<le> length content"
    and "width = int32_le (take 4 (drop 4 content))"
    and "height = int32_le (take 4 (drop 8 content))"
    and "frame_count = int32_le (take 4 (drop 12 content))"
    and "0 < width" and "0 < height" and "readable mem (width * height * 16)"
    and "16 + nat frame_count * nat (width * height * 16) \<le> length content"
  shows "read_trajectory mem files filename =
    \<lparr>printed = [Loading filename width height frame_count],
     bytes_read = 16 + nat frame_count * nat (width * height * 16),
     outcome = Inr (width, height,
       map (\<lambda>k. frame_at content (16 + k * nat (width * height * 16)) height width)
         [0..<nat frame_count])\<rparr>"
proof -
  let ?st = "\<lparr>fpos = 16, stdout = [Loading filename width height frame_count], frames = []\<rparr>"
  have pre: "fpos ?st + length (py_range frame_count) * nat (width * height * 16) \<le> length content"
    using assms(10) by (simp add: py_range_def)
  have "read_frames mem content width height (width * height * 16) (py_range frame_count @ []) ?st =
        read_frames mem content width height (width * height * 16) []
          (?st\<lparr>fpos := fpos ?st + length (py_range frame_count) * nat (width * height * 16),
               frames := frames ?st @
                 map (\<lambda>k. frame_at content (fpos ?st + k * nat (width * height * 16)) height width)
                   [0..<length (py_range frame_count)]\<rparr>)"
    by (rule read_frames_full_prefix [OF assms(7,8,9) pre])
  then have loop: "read_frames mem content width height (width * height * 16) (py_range frame_count) ?st =
        (None, \<lparr>fpos = 16 + nat frame_count * nat (width * height * 16),
                stdout = [Loading filename width height frame_count],
                frames = map (\<lambda>k. frame_at content (16 + k * nat (width * height * 16)) height width)
                   [0..<nat frame_count]\<rparr>)"
    by (simp add: py_range_def)
  show ?thesis
    using read_trajectory_header [of files filename content mem, OF assms(1-3)]
    by (simp add: Let_def assms(4-6) [symmetric] loop)
qed

lemma read_trajectory_short_read:
  assumes "files filename = Some content" and "take 4 content = SCHR"
    and "16 \<le> length content"
    and "width = int32_le (take 4 (drop 4 content))"
    and "height = int32_le (take 4 (drop 8 content))"
    and "frame_count = int32_le (take 4 (drop 12 content))"
    and "0 < width" and "0 < height" and "readable mem (width * height * 16)"
    and "i < nat frame_count"
    and "16 + i * nat (width * height * 16) \<le> length content"
    and "length content < 16 + Suc i * nat (width * height * 16)"
  shows "read_trajectory mem files filename =
    \<lparr>printed = [Loading filename width height frame_count, IncompleteFrame (int i)],
     bytes_read = length content,
     outcome = Inr (width, height,
       map (\<lambda>k. frame_at content (16 + k * nat (width * height * 16)) height width) [0..<i])\<rparr>"
proof -
  let ?fs = "nat (width * height * 16)"
  let ?st = "\<lparr>fpos = 16, stdout = [Loading filename width height frame_count], frames = []\<rparr>"
  let ?mid = "?st\<lparr>fpos := fpos ?st + length (map int [0..<i]) * ?fs,
               frames := frames ?st @
                 map (\<lambda>k. frame_at content (fpos ?st + k * ?fs) height width)
                   [0..<length (map int [0..<i])]\<rparr>"
  let ?rest = "int i # map int [Suc i..<nat frame_count]"
  have pre: "fpos ?st + length (map int [0..<i]) * ?fs \<le> length content"
    using assms(11) by simp
  have "read_frames mem content width height (width * height * 16) (py_range frame_count) ?st =
        read_frames mem content width height (width * height * 16) (map int [0..<i] @ ?rest) ?st"
    by (simp only: py_range_split [OF assms(10)])
  also have "\<dots> = read_frames mem content width height (width * height * 16) ?rest ?mid"
    by (rule read_frames_full_prefix [OF assms(7,8,9) pre])
  also have "\<dots> = (None, ?mid\<lparr>fpos := length content,
                          stdout := stdout ?mid @ [IncompleteFrame (int i)]\<rparr>)"
    by (rule read_frames_step_short [OF assms(7,8,9)]) (use assms(11,12) in simp_all)
  finally have loop: "read_frames mem content width height (width * height * 16) (py_range frame_count) ?st =
      (None, \<lparr>fpos = length content,
              stdout = [Loading filename width height frame_count, IncompleteFrame (int i)],
              frames = map (\<lambda>k. frame_at content (16 + k * ?fs) height width) [0..<i]\<rparr>)"
    by simp
  show ?thesis
    using read_trajectory_header [of files filename content mem, OF assms(1-3)]
    by (simp add: Let_def assms(4-6) [symmetric] loop)
qed

lemma read_trajectory_no_frames:
  assumes "files filename = Some content" and "take 4 content = SCHR"
    and "16 \<le> length content"
    and "width = int32_le (take 4 (drop 4 content))"
    and "height = int32_le (take 4 (drop 8 content))"
    and "frame_count = int32_le (take 4 (drop 12 content))"
    and "frame_count \<le> 0"
  shows "read_trajectory mem files filename =
    \<lparr>printed = [Loading filename width height frame_count], bytes_read = 16,
     outcome = Inr (width, height, [])\<rparr>"
  using assms(7) read_trajectory_header [of files filename content mem, OF assms(1-3)]
  by (simp add: py_range_def Let_def assms(4-6) [symmetric])

text \<open>
  Claim C1, as the code has it. For a file with a valid header (the magic tag, a positive
  width and height, a declared frame count that is not negative) that declares no frame
  or whose frame size \<open>width * height * 16\<close> is a size \<^verbatim>\<open>f.read\<close> is granted,
  \<^verbatim>\<open>read_trajectory\<close> returns, and the number of frames it returns is the smaller of the
  declared count and the number of whole frames in the bytes after the 16-byte header.
\<close>

theorem read_trajectory_frame_count:
  assumes "files filename = Some content" and "take 4 content = SCHR"
    and "16 \<le> length content"
    and "width = int32_le (take 4 (drop 4 content))"
    and "height = int32_le (take 4 (drop 8 content))"
    and "frame_count = int32_le (take 4 (drop 12 content))"
    and "0 < width" and "0 < height" and "0 \<le> frame_count"
    and "frame_count = 0 \<or> readable mem (width * height * 16)"
  shows "\<exists>fr. outcome (read_trajectory mem files filename) = Inr (width, height, fr) \<and>
              length fr = min (nat frame_count)
                              ((length content - 16) div nat (width * height * 16))"
proof (cases "frame_count = 0")
  case True
  then show ?thesis
    by (simp add: read_trajectory_no_frames
        [where files = files and filename = filename and content = content, OF assms(1-6)])
next
  case False
  with assms(10) have rd: "readable mem (width * height * 16)" by simp
  let ?fs = "nat (width * height * 16)"
  let ?a = "(length content - 16) div ?fs"
  have fs: "0 < ?fs" using assms(7,8) by simp
  have lo: "16 + ?a * ?fs \<le> length content"
    using assms(3) div_times_less_eq_dividend [of "length content - 16" ?fs] by linarith
  have hi: "length content < 16 + Suc ?a * ?fs"
    using assms(3) fs dividend_less_div_times [of ?fs "length content - 16"]
    by (simp add: algebra_simps)
  show ?thesis
  proof (cases "nat frame_count \<le> ?a")
    case True
    then have "nat frame_count * ?fs \<le> ?a * ?fs" by (rule mult_le_mono1)
    with lo have all: "16 + nat frame_count * ?fs \<le> length content" by linarith
    show ?thesis
      using True
      by (simp add: read_trajectory_all_frames
          [where files = files and filename = filename and content = content,
            OF assms(1-8) rd all] min_def)
  next
    case False
    then have lt: "?a < nat frame_count" by simp
    show ?thesis
      using lt
      by (simp add: read_trajectory_short_read
          [where files = files and filename = filename and content = content,
            OF assms(1-8) rd lt lo hi] min_def)
  qed
qed

text \<open>
  Claim C2, as the code has it. For a file with a valid header whose frame size is a size
  \<^verbatim>\<open>f.read\<close> is granted, when the read for frame \<open>i\<close> is short (the frames before it are
  whole, and fewer than \<open>width * height * 16\<close> bytes, maybe none, are left for it),
  \<^verbatim>\<open>read_trajectory\<close> does not fail: it prints the warning \<^verbatim>\<open>Incomplete frame i\<close>, leaves
  the loop, and returns the width, the height and exactly the \<open>i\<close> frames before the short
  read, each as the bytes of the file give it.
\<close>

theorem read_trajectory_truncated_frame:
  assumes "files filename = Some content" and "take 4 content = SCHR"
    and "16 \<le> length content"
    and "width = int32_le (take 4 (drop 4 content))"
    and "height = int32_le (take 4 (drop 8 content))"
    and "frame_count = int32_le (take 4 (drop 12 content))"
    and "0 < width" and "0 < height" and "readable mem (width * height * 16)"
    and "i < nat frame_count"
    and "16 + i * nat (width * height * 16) \<le> length content"
    and "length content < 16 + Suc i * nat (width * height * 16)"
  shows "read_trajectory mem files filename =
    \<lparr>printed = [Loading filename width height frame_count, IncompleteFrame (int i)],
     bytes_read = length content,
     outcome = Inr (width, height,
       map (\<lambda>k. frame_at content (16 + k * nat (width * height * 16)) height width) [0..<i])\<rparr>"
  using assms by (rule read_trajectory_short_read)

text \<open>
  A frame size above \<open>2 ^ 63\<close>: the first \<^verbatim>\<open>f.read\<close> raises \<^verbatim>\<open>OverflowError\<close>, whatever the
  allocator grants.
\<close>

lemma huge_frame_header:
  "int32_le [255, 255, 255, 127] = 2147483647"
  by (simp add: int32_le_def)

lemma huge_frame_run:
  "read_trajectory mem [''t.bin'' \<mapsto> huge_frame_file] ''t.bin'' =
     \<lparr>printed = [Loading ''t.bin'' 2147483647 2147483647 1], bytes_read = 16,
      outcome = Inl OverflowError\<rparr>"
  by (simp add: read_trajectory_def f_read_def DEFAULT_BUFFER_SIZE_def struct_unpack_iii_def
      SCHR_def huge_frame_file_def huge_frame_header py_range_def int32_le_def)

lemma huge_frame_short_run:
  "read_trajectory mem [''t.bin'' \<mapsto> huge_frame_short_file] ''t.bin'' =
     \<lparr>printed = [Loading ''t.bin'' 2147483647 2147483647 5], bytes_read = 16,
      outcome = Inl OverflowError\<rparr>"
  by (simp add: read_trajectory_def f_read_def DEFAULT_BUFFER_SIZE_def struct_unpack_iii_def
      SCHR_def huge_frame_short_file_def huge_frame_header py_range_def int32_le_def
      upt_conv_Cons)

text \<open>
  Claim C1 as stated fails: the header \<open>(2147483647, 2147483647, 1)\<close> is valid, and the run
  ends with \<^verbatim>\<open>OverflowError\<close> instead of returning \<open>min 1 0 = 0\<close> frames.
\<close>

theorem read_trajectory_huge_frame_fails:
  "take 4 huge_frame_file = SCHR
   \<and> int32_le (take 4 (drop 4 huge_frame_file)) = 2147483647
   \<and> int32_le (take 4 (drop 8 huge_frame_file)) = 2147483647
   \<and> int32_le (take 4 (drop 12 huge_frame_file)) = 1
   \<and> outcome (read_trajectory 0 [''t.bin'' \<mapsto> huge_frame_file] ''t.bin'') = Inl OverflowError"
  by (simp add: huge_frame_run) (simp add: huge_frame_file_def SCHR_def int32_le_def)

text \<open>
  Claim C2 as stated fails: with the valid header \<open>(2147483647, 2147483647, 5)\<close> and 3 bytes
  of payload, fewer bytes than a frame remain for frame 0, and the run ends with
  \<^verbatim>\<open>OverflowError\<close>: no warning is printed and nothing is returned.
\<close>

theorem read_trajectory_huge_frame_short_fails:
  "take 4 huge_frame_short_file = SCHR
   \<and> int32_le (take 4 (drop 4 huge_frame_short_file)) = 2147483647
   \<and> int32_le (take 4 (drop 8 huge_frame_short_file)) = 2147483647
   \<and> int32_le (take 4 (drop 12 huge_frame_short_file)) = 5
   \<and> length huge_frame_short_file - 16 = 3
   \<and> read_trajectory 0 [''t.bin'' \<mapsto> huge_frame_short_file] ''t.bin'' =
       \<lparr>printed = [Loading ''t.bin'' 2147483647 2147483647 5], bytes_read = 16,
        outcome = Inl OverflowError\<rparr>"
  by (simp add: huge_frame_short_run) (simp add: huge_frame_short_file_def SCHR_def int32_le_def)

lemma truncated_file_header:
  "take 4 truncated_file = SCHR" "length truncated_file = 51"
  "int32_le (take 4 (drop 4 truncated_file)) = 1"
  "int32_le (take 4 (drop 8 truncated_file)) = 1"
  "int32_le (take 4 (drop 12 truncated_file)) = 5"
  by (simp_all add: truncated_file_def SCHR_def int32_le_def)

text \<open>Five frames of one sample declared, two whole frames and three more bytes present.\<close>

theorem read_trajectory_frame_count_witness:
  "[''t.bin'' \<mapsto> truncated_file] ''t.bin'' = Some truncated_file
   \<and> take 4 truncated_file = SCHR \<and> 16 \<le> length truncated_file
   \<and> 1 = int32_le (take 4 (drop 4 truncated_file))
   \<and> 1 = int32_le (take 4 (drop 8 truncated_file))
   \<and> 5 = int32_le (take 4 (drop 12 truncated_file))
   \<and> readable 0 (1 * 1 * 16)
   \<and> (\<exists>fr. outcome (read_trajectory 0 [''t.bin'' \<mapsto> truncated_file] ''t.bin'') = Inr (1, 1, fr)
          \<and> length fr = 2)"
proof -
  have h1: "[''t.bin'' \<mapsto> truncated_file] ''t.bin'' = Some truncated_file" by simp
  have h2: "take 4 truncated_file = SCHR" by (rule truncated_file_header(1))
  have h3: "16 \<le> length truncated_file" by (simp add: truncated_file_header(2))
  have h4: "1 = int32_le (take 4 (drop 4 truncated_file))" by (simp add: truncated_file_header(3))
  have h5: "1 = int32_le (take 4 (drop 8 truncated_file))" by (simp add: truncated_file_header(4))
  have h6: "5 = int32_le (take 4 (drop 12 truncated_file))" by (simp add: truncated_file_header(5))
  have h7: "(0::int) < 1" by simp
  have h8: "(0::int) \<le> 5" by simp
  have rd: "readable 0 (1 * 1 * 16)" by (simp add: readable_def DEFAULT_BUFFER_SIZE_def)
  then have h9: "(5::int) = 0 \<or> readable 0 (1 * 1 * 16)" by (rule disjI2)
  have n: "min (nat 5) ((length truncated_file - 16) div nat (1 * 1 * 16)) = 2"
    by (simp add: truncated_file_header(2))
  have "\<exists>fr. outcome (read_trajectory 0 [''t.bin'' \<mapsto> truncated_file] ''t.bin'') = Inr (1, 1, fr)
          \<and> length fr = min (nat 5) ((length truncated_file - 16) div nat (1 * 1 * 16))"
    by (rule read_trajectory_frame_count [where mem = 0
      and files = "[''t.bin'' \<mapsto> truncated_file]" and filename = "''t.bin''"
      and content = truncated_file and width = 1 and height = 1 and frame_count = 5,
      OF h1 h2 h3 h4 h5 h6 h7 h7 h8 h9])
  then have "\<exists>fr. outcome (read_trajectory 0 [''t.bin'' \<mapsto> truncated_file] ''t.bin'') = Inr (1, 1, fr)
          \<and> length fr = 2"
    unfolding n .
  with h1 h2 h3 h4 h5 h6 rd show ?thesis by blast
qed

lemma truncated_file_frames:
  "map (\<lambda>k. frame_at truncated_file (16 + k * nat (1 * 1 * 16)) 1 1) [0..<2] =
      [\<lparr>shape = (1, 1), items = [(1, 2)]\<rparr>, \<lparr>shape = (1, 1), items = [(3, 4)]\<rparr>]"
proof -
  have "frame_at truncated_file 16 1 1 = \<lparr>shape = (1, 1), items = [(1, 2)]\<rparr>"
    by (simp add: frame_at_def float64_le_def truncated_file_def)
  moreover have "frame_at truncated_file 32 1 1 = \<lparr>shape = (1, 1), items = [(3, 4)]\<rparr>"
    by (simp add: frame_at_def float64_le_def truncated_file_def)
  moreover have "[0..<2] = [0, Suc 0]" by (simp add: upt_conv_Cons)
  ultimately show ?thesis by simp
qed

text \<open>On the same file the read for frame 2 is short.\<close>

theorem read_trajectory_truncated_frame_witness:
  "[''t.bin'' \<mapsto> truncated_file] ''t.bin'' = Some truncated_file
   \<and> take 4 truncated_file = SCHR \<and> 16 \<le> length truncated_file
   \<and> 1 = int32_le (take 4 (drop 4 truncated_file))
   \<and> 1 = int32_le (take 4 (drop 8 truncated_file))
   \<and> 5 = int32_le (take 4 (drop 12 truncated_file))
   \<and> readable 0 (1 * 1 * 16)
   \<and> 2 < nat 5
   \<and> 16 + 2 * nat (1 * 1 * 16) \<le> length truncated_file
   \<and> length truncated_file < 16 + Suc 2 * nat (1 * 1 * 16)
   \<and> read_trajectory 0 [''t.bin'' \<mapsto> truncated_file] ''t.bin'' =
       \<lparr>printed = [Loading ''t.bin'' 1 1 5, IncompleteFrame 2],
        bytes_read = 51,
        outcome = Inr (1, 1, [\<lparr>shape = (1, 1), items = [(1, 2)]\<rparr>,
                              \<lparr>shape = (1, 1), items = [(3, 4)]\<rparr>])\<rparr>"
proof -
  have h1: "[''t.bin'' \<mapsto> truncated_file] ''t.bin'' = Some truncated_file" by simp
  have h2: "take 4 truncated_file = SCHR" by (rule truncated_file_header(1))
  have h3: "16 \<le> length truncated_file" by (simp add: truncated_file_header(2))
  have h4: "1 = int32_le (take 4 (drop 4 truncated_file))" by (simp add: truncated_file_header(3))
  have h5: "1 = int32_le (take 4 (drop 8 truncated_file))" by (simp add: truncated_file_header(4))
  have h6: "5 = int32_le (take 4 (drop 12 truncated_file))" by (simp add: truncated_file_header(5))
  have h7: "(0::int) < 1" by simp
  have rd: "readable 0 (1 * 1 * 16)" by (simp add: readable_def DEFAULT_BUFFER_SIZE_def)
  have h8: "2 < nat 5" by simp
  have h9: "16 + 2 * nat (1 * 1 * 16) \<le> length truncated_file"
    by (simp add: truncated_file_header(2))
  have h10: "length truncated_file < 16 + Suc 2 * nat (1 * 1 * 16)"
    by (simp add: truncated_file_header(2))
  have "read_trajectory 0 [''t.bin'' \<mapsto> truncated_file] ''t.bin'' =
    \<lparr>printed = [Loading ''t.bin'' 1 1 5, IncompleteFrame (int 2)],
     bytes_read = length truncated_file,
     outcome = Inr (1, 1,
       map (\<lambda>k. frame_at truncated_file (16 + k * nat (1 * 1 * 16)) 1 1) [0..<2])\<rparr>"
    by (rule read_trajectory_truncated_frame [where mem = 0
      and files = "[''t.bin'' \<mapsto> truncated_file]" and filename = "''t.bin''"
      and content = truncated_file and width = 1 and height = 1 and frame_count = 5 and i = 2,
      OF h1 h2 h3 h4 h5 h6 h7 h7 rd h8 h9 h10])
  then have "read_trajectory 0 [''t.bin'' \<mapsto> truncated_file] ''t.bin'' =
       \<lparr>printed = [Loading ''t.bin'' 1 1 5, IncompleteFrame 2],
        bytes_read = 51,
        outcome = Inr (1, 1, [\<lparr>shape = (1, 1), items = [(1, 2)]\<rparr>,
                              \<lparr>shape = (1, 1), items = [(3, 4)]\<rparr>])\<rparr>"
    by (simp only: truncated_file_frames truncated_file_header(2) of_nat_numeral)
  with h1 h2 h3 h4 h5 h6 rd h8 h9 h10 show ?thesis by blast
qed

subsection \<open>Dimensions that are not positive\<close>













section \<open>Properties of the colour map\<close>

lemma getitem_mask_map: "getitem_mask (map f zs) (map p zs) = map f (filter p zs)"
  by (induction zs) auto

lemma setitem_mask_map:
  "setitem_mask (map g zs) (map p zs) (map h (filter p zs)) =
   map (\<lambda>z. if p z then h z else g z) zs"
  by (induction zs) auto

lemma zip_map_same: "zip (map g xs) (map h xs) = map (\<lambda>x. (g x, h x)) xs"
  by (induction xs) auto

lemma zip_map_same2: "zip xs (map h xs) = map (\<lambda>x. (x, h x)) xs"
  by (induction xs) auto

lemma getitem_mask_id: "getitem_mask zs (map p zs) = filter p zs"
  by (induction zs) auto

text \<open>
  The array code computes, sample by sample, \<open>sample_pixel\<close>, provided the frame is an
  array of the store.
\<close>

lemma complex_to_rgb_image:
  assumes "z < next_free s"
  shows "fst (complex_to_rgb s z) =
     \<lparr>shape = shape (complex_arrays s z), items = map sample_pixel (items (complex_arrays s z))\<rparr>"
  using assms
  by (simp add: complex_to_rgb_def np_abs_def new_float_def new_complex_def new_amplitude_def
        zeros_like_float_def zeros_like_complex_def setitem_float_def setitem_complex_def
        Let_def o_def getitem_mask_map getitem_mask_id setitem_mask_map zip_map_same
        zip_map_same2 filter_map sample_pixel_def)
     (simp add: np_clip_def mult_ac)

text \<open>The call writes to the arrays it makes only.\<close>

lemma complex_to_rgb_frame:
  assumes "p < next_free s"
  shows "complex_arrays (snd (complex_to_rgb s z)) p = complex_arrays s p"
    and "float_arrays (snd (complex_to_rgb s z)) p = float_arrays s p"
    and "amplitude_arrays (snd (complex_to_rgb s z)) p = amplitude_arrays s p"
  using assms
  by (simp_all add: complex_to_rgb_def np_abs_def new_float_def new_complex_def
      new_amplitude_def zeros_like_float_def zeros_like_complex_def setitem_float_def
      setitem_complex_def Let_def)

lemma complex_to_rgb_item:
  assumes "z < next_free s" and "k < length (items (complex_arrays s z))"
  shows "items (fst (complex_to_rgb s z)) ! k = sample_pixel (items (complex_arrays s z) ! k)"
  using assms by (simp add: complex_to_rgb_image)

lemma np_clip_unit: "0 \<le> np_clip x 0 1 \<and> np_clip x 0 1 \<le> 1"
  by (simp add: np_clip_def)

text \<open>The three ranges of the modulus of a sample.\<close>

lemma double_1e_9_bounds: "1 / 10 ^ 9 \<le> double_1e_9" "double_1e_9 < 1"
  by (simp_all add: double_1e_9_def)

lemma max_float_bounds: "1 \<le> max_float" "max_float < 2 ^ 1024 - 2 ^ 970"
  by (simp_all add: max_float_def)

lemma sample_pixel_black:
  assumes "cmod c \<le> 1 / 10 ^ 9"
  shows "sample_pixel c = (0, 0, 0)"
proof -
  have "cmod c < 2 ^ 1024 - 2 ^ 970"
    using assms double_1e_9_bounds max_float_bounds by linarith
  then have a: "np_abs_item c = Finite (cmod c)" by (simp add: np_abs_item_def)
  have "\<not> double_1e_9 < cmod c" using assms double_1e_9_bounds(1) by linarith
  then show ?thesis by (simp add: sample_pixel_def a)
qed

lemma sample_pixel_valid:
  assumes "double_1e_9 < cmod c" and "cmod c \<le> max_float"
  shows "sample_pixel c =
      (let x = Re c; y = Im c; a = cmod c;
           lum = arctan a / pi; scale = 0.5 * lum / a; u = scale * x; v = scale * y
       in (np_clip (lum + 1.5748 * v) 0 1,
           np_clip (lum - 0.1873 * u - 0.4681 * v) 0 1,
           np_clip (lum + 1.8556 * u) 0 1))"
proof -
  have "cmod c < 2 ^ 1024 - 2 ^ 970" using assms(2) max_float_bounds(2) by linarith
  then have a: "np_abs_item c = Finite (cmod c)" by (simp add: np_abs_item_def)
  show ?thesis
    using assms(1) by (simp add: sample_pixel_def a Let_def mult_ac)
qed

lemma sample_pixel_overflow:
  assumes "2 ^ 1024 - 2 ^ 970 \<le> cmod c"
  shows "sample_pixel c = (1 / 2, 1 / 2, 1 / 2)"
proof -
  have a: "np_abs_item c = PlusInfinity" using assms by (simp add: np_abs_item_def)
  show ?thesis by (simp add: sample_pixel_def a np_clip_def Let_def)
qed

lemma sample_pixel_unit:
  assumes "sample_pixel c = (r, g, b)"
  shows "0 \<le> r \<and> r \<le> 1 \<and> 0 \<le> g \<and> g \<le> 1 \<and> 0 \<le> b \<and> b \<le> 1"
  using assms np_clip_unit
  by (auto simp: sample_pixel_def Let_def split: if_splits)

lemma sample_pixel_one:
  "sample_pixel 1 = (0.25, 0.25 - 0.1873 * 0.125, 0.25 + 1.8556 * 0.125)"
proof -
  have "cmod 1 \<le> max_float" using max_float_bounds(1) by simp
  moreover have "double_1e_9 < cmod 1" using double_1e_9_bounds(2) by simp
  ultimately have "sample_pixel 1 =
      (let x = Re 1; y = Im 1; a = cmod 1;
           lum = arctan a / pi; scale = 0.5 * lum / a; u = scale * x; v = scale * y
       in (np_clip (lum + 1.5748 * v) 0 1,
           np_clip (lum - 0.1873 * u - 0.4681 * v) 0 1,
           np_clip (lum + 1.8556 * u) 0 1))"
    by (rule sample_pixel_valid [rotated])
  then show ?thesis by (simp add: arctan_one np_clip_def)
qed

text \<open>
  Claim C6, as the code has it. For a sample \<open>x + iy\<close> of the frame whose amplitude
  \<open>a = sqrt (x\<^sup>2 + y\<^sup>2)\<close> is above the double \<^verbatim>\<open>1e-9\<close> and at most the largest finite double,
  the pixel of \<^verbatim>\<open>complex_to_rgb\<close> is the clipped triple of \<open>r = lum + 1.5748 v\<close>,
  \<open>g = lum - 0.1873 u - 0.4681 v\<close> and \<open>b = lum + 1.8556 u\<close>, where \<open>lum = atan a / pi\<close>,
  \<open>scale = 0.5 lum / a\<close>, \<open>u = scale x\<close> and \<open>v = scale y\<close>; for the sample \<open>1 + 0i\<close> it is
  \<open>(0.25, 0.25 - 0.1873 * 0.125, 0.25 + 1.8556 * 0.125)\<close>, which the clipping leaves as it
  is.
\<close>

theorem complex_to_rgb_valid_sample:
  assumes "z < next_free s" and "k < length (items (complex_arrays s z))"
    and "c = items (complex_arrays s z) ! k"
    and "sqrt ((Re c)\<^sup>2 + (Im c)\<^sup>2) > double_1e_9"
    and "sqrt ((Re c)\<^sup>2 + (Im c)\<^sup>2) \<le> max_float"
  shows "items (fst (complex_to_rgb s z)) ! k =
      (let x = Re c; y = Im c; a = sqrt (x\<^sup>2 + y\<^sup>2);
           lum = arctan a / pi; scale = 0.5 * lum / a; u = scale * x; v = scale * y
       in (np_clip (lum + 1.5748 * v) 0 1,
           np_clip (lum - 0.1873 * u - 0.4681 * v) 0 1,
           np_clip (lum + 1.8556 * u) 0 1))
     \<and> (c = 1 \<longrightarrow> items (fst (complex_to_rgb s z)) ! k =
                     (0.25, 0.25 - 0.1873 * 0.125, 0.25 + 1.8556 * 0.125))"
proof -
  have px: "items (fst (complex_to_rgb s z)) ! k = sample_pixel c"
    using complex_to_rgb_item [OF assms(1,2)] assms(3) by simp
  have lo: "double_1e_9 < cmod c" and hi: "cmod c \<le> max_float"
    using assms(4,5) by (simp_all only: cmod_def)
  have gen: "sample_pixel c =
      (let x = Re c; y = Im c; a = sqrt (x\<^sup>2 + y\<^sup>2);
           lum = arctan a / pi; scale = 0.5 * lum / a; u = scale * x; v = scale * y
       in (np_clip (lum + 1.5748 * v) 0 1,
           np_clip (lum - 0.1873 * u - 0.4681 * v) 0 1,
           np_clip (lum + 1.8556 * u) 0 1))"
    unfolding sample_pixel_valid [OF lo hi] by (simp only: Let_def cmod_def)
  have one: "c = 1 \<longrightarrow> items (fst (complex_to_rgb s z)) ! k =
                     (0.25, 0.25 - 0.1873 * 0.125, 0.25 + 1.8556 * 0.125)"
  proof
    assume "c = 1"
    with px show "items (fst (complex_to_rgb s z)) ! k =
                     (0.25, 0.25 - 0.1873 * 0.125, 0.25 + 1.8556 * 0.125)"
      by (simp only: sample_pixel_one)
  qed
  from px gen have "items (fst (complex_to_rgb s z)) ! k =
      (let x = Re c; y = Im c; a = sqrt (x\<^sup>2 + y\<^sup>2);
           lum = arctan a / pi; scale = 0.5 * lum / a; u = scale * x; v = scale * y
       in (np_clip (lum + 1.5748 * v) 0 1,
           np_clip (lum - 0.1873 * u - 0.4681 * v) 0 1,
           np_clip (lum + 1.8556 * u) 0 1))"
    by (rule trans)
  with one show ?thesis by (rule conjI [rotated])
qed

text \<open>
  Claim C7. A sample whose amplitude is at most \<open>1e-9\<close> gives the pixel \<open>(0, 0, 0)\<close>.
\<close>

theorem complex_to_rgb_black:
  assumes "z < next_free s" and "k < length (items (complex_arrays s z))"
    and "cmod (items (complex_arrays s z) ! k) \<le> 1 / 10 ^ 9"
  shows "items (fst (complex_to_rgb s z)) ! k = (0, 0, 0)"
  unfolding complex_to_rgb_item [OF assms(1,2)]
  by (rule sample_pixel_black [OF assms(3)])

text \<open>
  Claim C8. Every channel of every pixel of the image lies between 0 and 1.
\<close>

theorem complex_to_rgb_unit_interval:
  assumes "z < next_free s" and "(r, g, b) \<in> set (items (fst (complex_to_rgb s z)))"
  shows "0 \<le> r \<and> r \<le> 1 \<and> 0 \<le> g \<and> g \<le> 1 \<and> 0 \<le> b \<and> b \<le> 1"
proof -
  from assms obtain c where "sample_pixel c = (r, g, b)"
    by (auto simp: complex_to_rgb_image)
  then show ?thesis by (rule sample_pixel_unit)
qed

text \<open>
  Claim C9. \<^verbatim>\<open>complex_to_rgb\<close> is deterministic and pure: two calls on frames with the same
  content, in any two stores and at any two addresses, return the same image, and a call
  leaves the input frame, and every array that was there before it, as it was.
\<close>

theorem complex_to_rgb_pure:
  assumes "z1 < next_free s1" and "z2 < next_free s2"
    and "complex_arrays s1 z1 = complex_arrays s2 z2"
    and "p < next_free s1"
  shows "fst (complex_to_rgb s1 z1) = fst (complex_to_rgb s2 z2)
       \<and> complex_arrays (snd (complex_to_rgb s1 z1)) z1 = complex_arrays s1 z1
       \<and> complex_arrays (snd (complex_to_rgb s1 z1)) p = complex_arrays s1 p
       \<and> float_arrays (snd (complex_to_rgb s1 z1)) p = float_arrays s1 p
       \<and> amplitude_arrays (snd (complex_to_rgb s1 z1)) p = amplitude_arrays s1 p"
  using assms
  by (simp add: complex_to_rgb_image complex_to_rgb_frame)

text \<open>
  A finite sample whose modulus overflows: \<^verbatim>\<open>np.abs\<close> gives \<^verbatim>\<open>inf\<close>, so \<open>lum = 1 / 2\<close>, the scale
  is 0 and the pixel is the grey \<open>(1 / 2, 1 / 2, 1 / 2)\<close>, while the formulas of the claim on
  the real amplitude give a green channel below \<open>2 / 5\<close>.
\<close>

lemma overflow_sample_cmod: "2 ^ 1024 - 2 ^ 970 \<le> cmod overflow_sample"
proof -
  define r :: real where "r = 3 * 2 ^ 1022"
  have r: "0 \<le> r" by (simp add: r_def)
  have "(4 / 3 :: real) \<le> sqrt 2" by (rule real_le_rsqrt) (simp add: power2_eq_square)
  then have "4 / 3 * r \<le> sqrt 2 * r" using r by (rule mult_right_mono)
  moreover have "4 / 3 * r = 2 ^ 1024" by (simp add: r_def)
  moreover have "cmod (Complex r r) = sqrt 2 * r"
    using r by (simp add: cmod_def real_sqrt_mult power2_eq_square [symmetric]
        mult_2 [symmetric])
  moreover have "(2::real) ^ 1024 - 2 ^ 970 \<le> 2 ^ 1024" by simp
  ultimately show ?thesis by (simp add: overflow_sample_def r_def)
qed

lemma spec_pixel_green_diagonal:
  assumes "0 < r" and "1 / 10 ^ 9 < cmod (Complex r r)"
  shows "fst (snd (spec_pixel (Complex r r))) < 2 / 5"
proof -
  define a where "a = cmod (Complex r r)"
  define lum where "lum = arctan a / pi"
  define scale where "scale = 0.5 * lum / a"
  define u where "u = scale * r"
  have "(0::real) < 1 / 10 ^ 9" by simp
  then have "0 < cmod (Complex r r)" using assms(2) by (rule less_trans)
  then have a: "0 < a" by (simp only: a_def)
  have cm: "sqrt ((Re (Complex r r))\<^sup>2 + (Im (Complex r r))\<^sup>2) = a"
    by (simp only: a_def cmod_def)
  have na: "(a \<le> 1 / 10 ^ 9) = False"
    using assms(2) by (simp only: a_def not_le [symmetric] simp_thms)
  have ar: "a = sqrt 2 * r"
    using assms(1) by (simp add: a_def cmod_def real_sqrt_mult power2_eq_square [symmetric]
        mult_2 [symmetric])
  have "0 < arctan a" using a by (simp add: zero_less_arctan_iff)
  then have lum0: "0 < lum" by (simp add: lum_def)
  have "arctan a < pi / 2" by (rule arctan_ubound)
  then have lum1: "lum < 1 / 2" by (simp add: lum_def field_simps)
  have s2: "sqrt 2 \<le> 3 / 2" by (rule real_le_lsqrt) (simp_all add: power2_eq_square)
  have s0: "0 < sqrt (2::real)" by simp
  have "u = (lum / 2) / sqrt 2" using assms(1) by (simp add: u_def scale_def ar)
  moreover have "(lum / 2) / (3 / 2) \<le> (lum / 2) / sqrt 2"
    using lum0 s0 s2 by (intro divide_left_mono) simp_all
  ultimately have ul: "lum / 3 \<le> u" by simp
  define g where "g = lum - 0.1873 * u - 0.4681 * u"
  have "g < 2 / 5" using ul lum0 lum1 by (simp add: g_def)
  then have "np_clip g 0 1 < 2 / 5" by (simp add: np_clip_def)
  then have green: "np_clip (lum - 0.1873 * (scale * r) - 0.4681 * (scale * r)) 0 1 < 2 / 5"
    by (simp only: g_def u_def)
  have "spec_pixel (Complex r r) =
      (np_clip (lum + 1.5748 * (scale * Im (Complex r r))) 0 1,
       np_clip (lum - 0.1873 * (scale * Re (Complex r r)) - 0.4681 * (scale * Im (Complex r r))) 0 1,
       np_clip (lum + 1.8556 * (scale * Re (Complex r r))) 0 1)"
    unfolding spec_pixel_def Let_def cm lum_def scale_def
    by (simp only: na if_False)
  with green show ?thesis by simp
qed

text \<open>
  Claim C6 as stated fails: the sample \<open>3 * 2 ^ 1022 * (1 + i)\<close> is finite and its amplitude
  is above \<open>1e-9\<close>; its pixel is \<open>(1 / 2, 1 / 2, 1 / 2)\<close>, while the green channel of the claim's
  formulas is below \<open>2 / 5\<close>.
\<close>

theorem complex_to_rgb_overflow_grey:
  "overflow_sample = items (complex_arrays overflow_store 0) ! 0
   \<and> sqrt ((Re overflow_sample)\<^sup>2 + (Im overflow_sample)\<^sup>2) > 1 / 10 ^ 9
   \<and> items (fst (complex_to_rgb overflow_store 0)) ! 0 = (1 / 2, 1 / 2, 1 / 2)
   \<and> fst (snd (spec_pixel overflow_sample)) < 2 / 5"
proof -
  have s: "0 < next_free overflow_store"
    "items (complex_arrays overflow_store 0) = [overflow_sample]"
    by (simp_all add: overflow_store_def)
  have big: "1 / 10 ^ 9 < cmod overflow_sample"
    using overflow_sample_cmod max_float_bounds double_1e_9_bounds by linarith
  then have amp: "sqrt ((Re overflow_sample)\<^sup>2 + (Im overflow_sample)\<^sup>2) > 1 / 10 ^ 9"
    by (simp only: cmod_def)
  have "items (fst (complex_to_rgb overflow_store 0)) ! 0 = sample_pixel overflow_sample"
    by (simp add: complex_to_rgb_image [OF s(1)] s(2))
  then have grey: "items (fst (complex_to_rgb overflow_store 0)) ! 0 = (1 / 2, 1 / 2, 1 / 2)"
    by (simp only: sample_pixel_overflow [OF overflow_sample_cmod])
  have pos: "(0::real) < 3 * 2 ^ 1022" by simp
  have green: "fst (snd (spec_pixel overflow_sample)) < 2 / 5"
    unfolding overflow_sample_def
    by (rule spec_pixel_green_diagonal [OF pos big [unfolded overflow_sample_def]])
  with s(2) amp grey show ?thesis by simp
qed

lemma example_store_simps:
  "next_free example_store = 1"
  "complex_arrays example_store 0 = \<lparr>shape = (1, 2), items = [1, 0]\<rparr>"
  "float_arrays example_store 0 = \<lparr>shape = (0, 0), items = []\<rparr>"
  "next_free example_store2 = 2"
  "complex_arrays example_store2 1 = \<lparr>shape = (1, 2), items = [1, 0]\<rparr>"
  by (simp_all add: example_store_def example_store2_def)

text \<open>The sample \<open>1 + 0i\<close> of the example frame.\<close>

theorem complex_to_rgb_valid_sample_witness:
  "0 < next_free example_store \<and> 0 < length (items (complex_arrays example_store 0))
   \<and> (1::complex) = items (complex_arrays example_store 0) ! 0
   \<and> sqrt ((Re 1)\<^sup>2 + (Im 1)\<^sup>2) > double_1e_9
   \<and> sqrt ((Re 1)\<^sup>2 + (Im 1)\<^sup>2) \<le> max_float
   \<and> items (fst (complex_to_rgb example_store 0)) ! 0 =
        (0.25, 0.25 - 0.1873 * 0.125, 0.25 + 1.8556 * 0.125)"
proof -
  have h1: "0 < next_free example_store" by (simp add: example_store_simps)
  have h2: "0 < length (items (complex_arrays example_store 0))"
    by (simp add: example_store_simps)
  have h3: "(1::complex) = items (complex_arrays example_store 0) ! 0"
    by (simp add: example_store_simps)
  have h4: "sqrt ((Re 1)\<^sup>2 + (Im 1)\<^sup>2) > double_1e_9"
    using double_1e_9_bounds(2) by simp
  have h5: "sqrt ((Re 1)\<^sup>2 + (Im 1)\<^sup>2) \<le> max_float"
    using max_float_bounds(1) by simp
  from complex_to_rgb_valid_sample [OF h1 h2 h3 h4 h5] h1 h2 h3 h4 h5
  show ?thesis by blast
qed

text \<open>The sample \<open>0\<close> of the example frame.\<close>

theorem complex_to_rgb_black_witness:
  "0 < next_free example_store \<and> 1 < length (items (complex_arrays example_store 0))
   \<and> cmod (items (complex_arrays example_store 0) ! 1) \<le> 1 / 10 ^ 9
   \<and> items (fst (complex_to_rgb example_store 0)) ! 1 = (0, 0, 0)"
proof -
  have h1: "0 < next_free example_store" by (simp add: example_store_simps)
  have h2: "1 < length (items (complex_arrays example_store 0))"
    by (simp add: example_store_simps)
  have h3: "cmod (items (complex_arrays example_store 0) ! 1) \<le> 1 / 10 ^ 9"
    by (simp add: example_store_simps)
  from complex_to_rgb_black [OF h1 h2 h3] h1 h2 h3
  show ?thesis by blast
qed

text \<open>The pixel of the sample \<open>1 + 0i\<close>.\<close>

theorem complex_to_rgb_unit_interval_witness:
  "0 < next_free example_store
   \<and> (0.25, 0.25 - 0.1873 * 0.125, 0.25 + 1.8556 * 0.125)
        \<in> set (items (fst (complex_to_rgb example_store 0)))
   \<and> (0::real) \<le> 0.25 \<and> (0.25::real) \<le> 1
   \<and> (0::real) \<le> 0.25 - 0.1873 * 0.125 \<and> (0.25::real) - 0.1873 * 0.125 \<le> 1
   \<and> (0::real) \<le> 0.25 + 1.8556 * 0.125 \<and> (0.25::real) + 1.8556 * 0.125 \<le> 1"
proof -
  have h1: "0 < next_free example_store" by (simp add: example_store_simps)
  have "items (fst (complex_to_rgb example_store 0)) = map sample_pixel [1, 0]"
    by (simp add: complex_to_rgb_image [OF h1] example_store_simps)
  then have h2: "(0.25, 0.25 - 0.1873 * 0.125, 0.25 + 1.8556 * 0.125)
        \<in> set (items (fst (complex_to_rgb example_store 0)))"
    by (simp only: list.map sample_pixel_one list.set insertI1)
  from complex_to_rgb_unit_interval [OF h1 h2] h1 h2
  show ?thesis by blast
qed

text \<open>The same frame in the two example stores.\<close>

theorem complex_to_rgb_pure_witness:
  "0 < next_free example_store \<and> 1 < next_free example_store2
   \<and> complex_arrays example_store 0 = complex_arrays example_store2 1
   \<and> fst (complex_to_rgb example_store 0) = fst (complex_to_rgb example_store2 1)
   \<and> complex_arrays (snd (complex_to_rgb example_store 0)) 0 = complex_arrays example_store 0
   \<and> float_arrays (snd (complex_to_rgb example_store 0)) 0 = float_arrays example_store 0"
proof -
  have h1: "0 < next_free example_store" by (simp add: example_store_simps)
  have h2: "1 < next_free example_store2" by (simp add: example_store_simps)
  have h3: "complex_arrays example_store 0 = complex_arrays example_store2 1"
    by (simp only: example_store_simps)
  from complex_to_rgb_pure [OF h1 h2 h3 h1] h1 h2 h3
  show ?thesis by blast
qed

end
